theory Spec2Isabelle
  imports Main "HOL-Library.Word"
begin

section \<open>Strings of the form\<close>

text \<open>
  A JavaScript string is a sequence of 16-bit code units. The texts the user types (the
  URL entries and the question) are modelled as such sequences; the fixed messages of the
  program are written as HOL string literals.
\<close>

type_synonym code_unit = "16 word"
type_synonym js_string = "code_unit list"

definition js :: "string \<Rightarrow> js_string" where
  "js s = map of_char s"

text \<open>
  \<^verbatim>\<open>String.prototype.trim\<close> removes the WhiteSpace and LineTerminator code points of
  ECMAScript from both ends: TAB, LF, VT, FF, CR, SPACE, NBSP, U+1680, U+2000..U+200A,
  LS, PS, U+202F, U+205F, U+3000 and U+FEFF.
\<close>

definition isWhiteSpace :: "code_unit \<Rightarrow> bool" where
  "isWhiteSpace c =
     (c = 0x9 \<or> c = 0xA \<or> c = 0xB \<or> c = 0xC \<or> c = 0xD \<or> c = 0x20 \<or> c = 0xA0 \<or>
      c = 0x1680 \<or> (0x2000 \<le> c \<and> c \<le> 0x200A) \<or> c = 0x2028 \<or> c = 0x2029 \<or>
      c = 0x202F \<or> c = 0x205F \<or> c = 0x3000 \<or> c = 0xFEFF)"

definition trim :: "js_string \<Rightarrow> js_string" where
  "trim s = rev (dropWhile isWhiteSpace (rev (dropWhile isWhiteSpace s)))"

section \<open>The URL constructor\<close>

text \<open>
  \<^verbatim>\<open>new URL(urlString)\<close> is the platform's parser, not code of the repository. The
  program observes two things of it: whether it throws, and the \<^verbatim>\<open>protocol\<close> of the
  URL it returns, which is the URL's scheme followed by a colon. The functions of the form
  take the constructor as a parameter; \<open>None\<close> is the TypeError it throws.
\<close>

record url =
  scheme :: js_string

definition protocol :: "url \<Rightarrow> js_string" where
  "protocol u = scheme u @ js '':''"

type_synonym url_constructor = "js_string \<Rightarrow> url option"

section \<open>The URL parser of the platform\<close>

text \<open>
  In a browser the constructor is the basic URL parser of the WHATWG URL Standard, run
  without a base URL and without a state override. The definitions below follow
  its states as far as they decide failure and the scheme; the states after the host and
  the port (path, query, fragment) never fail and set no scheme. Two parts of the host
  parser are parameters: Unicode ToASCII on a domain that is not plain ASCII or has an
  \<^verbatim>\<open>xn--\<close> label, and the IPv6 parser. Code points are read off the code units: every
  code point these states test is ASCII.
\<close>

definition c0_control_or_space :: "code_unit \<Rightarrow> bool" where
  "c0_control_or_space c = (c \<le> 0x20)"

definition ascii_tab_or_newline :: "code_unit \<Rightarrow> bool" where
  "ascii_tab_or_newline c = (c = 0x9 \<or> c = 0xA \<or> c = 0xD)"

definition ascii_upper_alpha :: "code_unit \<Rightarrow> bool" where
  "ascii_upper_alpha c = (0x41 \<le> c \<and> c \<le> 0x5A)"

definition ascii_lower_alpha :: "code_unit \<Rightarrow> bool" where
  "ascii_lower_alpha c = (0x61 \<le> c \<and> c \<le> 0x7A)"

definition ascii_alpha :: "code_unit \<Rightarrow> bool" where
  "ascii_alpha c = (ascii_upper_alpha c \<or> ascii_lower_alpha c)"

definition ascii_digit :: "code_unit \<Rightarrow> bool" where
  "ascii_digit c = (0x30 \<le> c \<and> c \<le> 0x39)"

definition ascii_hex_digit :: "code_unit \<Rightarrow> bool" where
  "ascii_hex_digit c = (ascii_digit c \<or> (0x41 \<le> c \<and> c \<le> 0x46) \<or> (0x61 \<le> c \<and> c \<le> 0x66))"

definition ascii_code_point :: "code_unit \<Rightarrow> bool" where
  "ascii_code_point c = (c \<le> 0x7F)"

definition ascii_lowercase :: "code_unit \<Rightarrow> code_unit" where
  "ascii_lowercase c = (if ascii_upper_alpha c then c + 0x20 else c)"

text \<open>Leading and trailing C0 controls and spaces are removed, then every ASCII tab and
  newline.\<close>

definition strip_trailing :: "js_string \<Rightarrow> js_string" where
  "strip_trailing input = rev (dropWhile c0_control_or_space (rev input))"

definition remove_tab_newline :: "js_string \<Rightarrow> js_string" where
  "remove_tab_newline input = filter (\<lambda>c. \<not> ascii_tab_or_newline c) input"

definition strip_input :: "js_string \<Rightarrow> js_string" where
  "strip_input input =
     remove_tab_newline (strip_trailing (dropWhile c0_control_or_space input))"

text \<open>Scheme start state and scheme state. The result is the scheme, lower-cased as it is
  collected, and the input after the colon; \<open>None\<close> is the no scheme state, which fails
  when there is no base URL.\<close>

definition scheme_code_point :: "code_unit \<Rightarrow> bool" where
  "scheme_code_point c =
     (ascii_alpha c \<or> ascii_digit c \<or> c = 0x2B \<or> c = 0x2D \<or> c = 0x2E)"

fun scheme_state :: "js_string \<Rightarrow> js_string \<Rightarrow> (js_string \<times> js_string) option" where
  "scheme_state buffer [] = None"
| "scheme_state buffer (c # remaining) =
     (if scheme_code_point c then scheme_state (buffer @ [ascii_lowercase c]) remaining
      else if c = 0x3A then Some (buffer, remaining)
      else None)"

definition scheme_start_state :: "js_string \<Rightarrow> (js_string \<times> js_string) option" where
  "scheme_start_state input =
     (case input of
        [] \<Rightarrow> None
      | c # remaining \<Rightarrow>
          if ascii_alpha c then scheme_state [ascii_lowercase c] remaining else None)"

text \<open>The parser, given the states that follow the scheme state: \<open>after\<close> tells whether
  they succeed on a scheme and the input that remains.\<close>

definition basic_URL_parser :: "(js_string \<Rightarrow> js_string \<Rightarrow> bool) \<Rightarrow> url_constructor" where
  "basic_URL_parser after input =
     (case scheme_start_state (strip_input input) of
        None \<Rightarrow> None
      | Some (sch, remaining) \<Rightarrow>
          if after sch remaining then Some \<lparr>scheme = sch\<rparr> else None)"

definition special_scheme :: "js_string \<Rightarrow> bool" where
  "special_scheme sch =
     (sch = js ''ftp'' \<or> sch = js ''file'' \<or> sch = js ''http'' \<or> sch = js ''https'' \<or>
      sch = js ''ws'' \<or> sch = js ''wss'')"

subsection \<open>Hosts\<close>

record host_tables =
  unicode_domain :: "js_string \<Rightarrow> bool"
  ipv6_literal :: "js_string \<Rightarrow> bool"

definition forbidden_host_code_point :: "code_unit \<Rightarrow> bool" where
  "forbidden_host_code_point c =
     (c = 0x0 \<or> c = 0x9 \<or> c = 0xA \<or> c = 0xD \<or> c = 0x20 \<or> c = 0x23 \<or> c = 0x2F \<or>
      c = 0x3A \<or> c = 0x3C \<or> c = 0x3E \<or> c = 0x3F \<or> c = 0x40 \<or> c = 0x5B \<or>
      c = 0x5C \<or> c = 0x5D \<or> c = 0x5E \<or> c = 0x7C)"

definition forbidden_domain_code_point :: "code_unit \<Rightarrow> bool" where
  "forbidden_domain_code_point c =
     (forbidden_host_code_point c \<or> c \<le> 0x1F \<or> c = 0x25 \<or> c = 0x7F)"

fun strictly_split :: "code_unit \<Rightarrow> js_string \<Rightarrow> js_string list" where
  "strictly_split d [] = [[]]"
| "strictly_split d (c # cs) =
     (if c = d then [] # strictly_split d cs
      else case strictly_split d cs of
             [] \<Rightarrow> [[c]]
           | part # parts \<Rightarrow> (c # part) # parts)"

definition digit_value :: "code_unit \<Rightarrow> nat" where
  "digit_value c =
     (if ascii_digit c then unat c - 0x30
      else if 0x41 \<le> c \<and> c \<le> 0x46 then unat c - 0x37
      else unat c - 0x57)"

definition number_value :: "nat \<Rightarrow> js_string \<Rightarrow> nat" where
  "number_value R ds = foldl (\<lambda>n d. n * R + digit_value d) 0 ds"

fun percent_decode :: "js_string \<Rightarrow> js_string" where
  "percent_decode (c # h # l # rest) =
     (if c = 0x25 \<and> ascii_hex_digit h \<and> ascii_hex_digit l
      then of_nat (number_value 16 [h, l]) # percent_decode rest
      else c # percent_decode (h # l # rest))"
| "percent_decode (c # rest) = c # percent_decode rest"
| "percent_decode [] = []"

definition radix_digit :: "nat \<Rightarrow> code_unit \<Rightarrow> bool" where
  "radix_digit R c =
     (if R = 16 then ascii_hex_digit c
      else if R = 8 then 0x30 \<le> c \<and> c \<le> 0x37
      else ascii_digit c)"

definition ipv4_number_in :: "nat \<Rightarrow> js_string \<Rightarrow> nat option" where
  "ipv4_number_in R ds =
     (if ds = [] then Some 0
      else if list_all (radix_digit R) ds then Some (number_value R ds)
      else None)"

fun ipv4_number_parser :: "js_string \<Rightarrow> nat option" where
  "ipv4_number_parser [] = None"
| "ipv4_number_parser (a # b # ds) =
     (if a = 0x30 \<and> (b = 0x58 \<or> b = 0x78) then ipv4_number_in 16 ds
      else if a = 0x30 then ipv4_number_in 8 (b # ds)
      else ipv4_number_in 10 (a # b # ds))"
| "ipv4_number_parser ds = ipv4_number_in 10 ds"

definition ends_in_a_number :: "js_string \<Rightarrow> bool" where
  "ends_in_a_number input =
     (let parts = strictly_split 0x2E input
      in if last parts = [] \<and> length parts = 1 then False
         else
           (let lst = last (if last parts = [] then butlast parts else parts)
            in (lst \<noteq> [] \<and> list_all ascii_digit lst) \<or> ipv4_number_parser lst \<noteq> None))"

definition ipv4_parser :: "js_string \<Rightarrow> bool" where
  "ipv4_parser input =
     (let parts0 = strictly_split 0x2E input;
          parts = (if last parts0 = [] \<and> 1 < length parts0 then butlast parts0 else parts0);
          numbers = map ipv4_number_parser parts
      in length parts \<le> 4 \<and>
         list_all (\<lambda>n. n \<noteq> None) numbers \<and>
         list_all (\<lambda>n. the n \<le> 255) (butlast numbers) \<and>
         the (last numbers) < 256 ^ (5 - length numbers))"

definition punycode_label :: "js_string \<Rightarrow> bool" where
  "punycode_label label = (map ascii_lowercase (take 4 label) = js ''xn--'')"

text \<open>The host parser on the host of a special URL. On an ASCII domain with no \<^verbatim>\<open>xn--\<close>
  label, domain to ASCII is ASCII lower-casing.\<close>

definition domain_host :: "host_tables \<Rightarrow> js_string \<Rightarrow> bool" where
  "domain_host T input =
     (if \<not> list_all ascii_code_point input then unicode_domain T input
      else
        (let domain = percent_decode input
         in if \<not> list_all ascii_code_point domain \<or>
               list_ex punycode_label (strictly_split 0x2E domain)
            then unicode_domain T input
            else
              (let asciiDomain = map ascii_lowercase domain
               in asciiDomain \<noteq> [] \<and>
                  \<not> list_ex forbidden_domain_code_point asciiDomain \<and>
                  (if ends_in_a_number asciiDomain then ipv4_parser asciiDomain else True))))"

definition host_parser :: "host_tables \<Rightarrow> js_string \<Rightarrow> bool \<Rightarrow> bool" where
  "host_parser T input isOpaque =
     (if input \<noteq> [] \<and> hd input = 0x5B
      then last input = 0x5D \<and> ipv6_literal T (butlast (tl input))
      else if isOpaque then \<not> list_ex forbidden_host_code_point input
      else domain_host T input)"

subsection \<open>The states after the scheme\<close>

text \<open>Authority state: the buffer that is left when the authority ends is what follows the
  last \<^verbatim>\<open>@\<close>; the host state then reads it again.\<close>

definition authority_end :: "bool \<Rightarrow> code_unit \<Rightarrow> bool" where
  "authority_end special c =
     (c = 0x2F \<or> c = 0x3F \<or> c = 0x23 \<or> (special \<and> c = 0x5C))"

fun authority_state :: "bool \<Rightarrow> bool \<Rightarrow> js_string \<Rightarrow> js_string \<Rightarrow> js_string option" where
  "authority_state special atSignSeen buffer [] =
     (if atSignSeen \<and> buffer = [] then None else Some buffer)"
| "authority_state special atSignSeen buffer (c # remaining) =
     (if c = 0x40 then authority_state special True [] remaining
      else if authority_end special c
      then (if atSignSeen \<and> buffer = [] then None else Some buffer)
      else authority_state special atSignSeen (buffer @ [c]) remaining)"

definition port_state :: "js_string \<Rightarrow> bool" where
  "port_state input =
     (list_all ascii_digit input \<and> (input = [] \<or> number_value 10 input \<le> 65535))"

fun host_state :: "host_tables \<Rightarrow> bool \<Rightarrow> bool \<Rightarrow> js_string \<Rightarrow> js_string \<Rightarrow> bool" where
  "host_state T special insideBrackets buffer [] =
     (if special \<and> buffer = [] then False else host_parser T buffer (\<not> special))"
| "host_state T special insideBrackets buffer (c # remaining) =
     (if c = 0x3A \<and> \<not> insideBrackets
      then (if buffer = [] then False
            else host_parser T buffer (\<not> special) \<and> port_state remaining)
      else host_state T special
             (if c = 0x5B then True else if c = 0x5D then False else insideBrackets)
             (buffer @ [c]) remaining)"

definition authority :: "host_tables \<Rightarrow> bool \<Rightarrow> js_string \<Rightarrow> bool" where
  "authority T special input =
     (case authority_state special False [] input of
        None \<Rightarrow> False
      | Some buffer \<Rightarrow> host_state T special False [] buffer)"

definition solidus :: "code_unit \<Rightarrow> bool" where
  "solidus c = (c = 0x2F \<or> c = 0x5C)"

definition windows_drive_letter :: "js_string \<Rightarrow> bool" where
  "windows_drive_letter s =
     (case s of [a, b] \<Rightarrow> ascii_alpha a \<and> (b = 0x3A \<or> b = 0x7C) | _ \<Rightarrow> False)"

definition file_host_state :: "host_tables \<Rightarrow> js_string \<Rightarrow> bool" where
  "file_host_state T input =
     (let buffer = takeWhile (\<lambda>c. \<not> (solidus c \<or> c = 0x3F \<or> c = 0x23)) input
      in if windows_drive_letter buffer then True
         else if buffer = [] then True
         else host_parser T buffer False)"

fun file_state :: "host_tables \<Rightarrow> js_string \<Rightarrow> bool" where
  "file_state T (c # d # remaining) =
     (if solidus c \<and> solidus d then file_host_state T remaining else True)"
| "file_state T _ = True"

definition after_scheme :: "host_tables \<Rightarrow> js_string \<Rightarrow> js_string \<Rightarrow> bool" where
  "after_scheme T sch remaining =
     (if sch = js ''file'' then file_state T remaining
      else if special_scheme sch then authority T True (dropWhile solidus remaining)
      else case remaining of
             c # d # rest \<Rightarrow> if c = 0x2F \<and> d = 0x2F then authority T False rest else True
           | _ \<Rightarrow> True)"

definition URL_new :: "host_tables \<Rightarrow> url_constructor" where
  "URL_new T = basic_URL_parser (after_scheme T)"

text \<open>The tables under which a host that needs them is rejected. The inputs evaluated with
  them below have plain ASCII domains, on which the tables are not consulted.\<close>

definition no_tables :: host_tables where
  "no_tables = \<lparr>unicode_domain = (\<lambda>_. False), ipv6_literal = (\<lambda>_. False)\<rparr>"

section \<open>State of the component\<close>

text \<open>
  \<^verbatim>\<open>urls\<close> is a JavaScript array. An assignment beyond its end, at an array index,
  extends it and leaves holes; spreading an array turns its holes into \<^verbatim>\<open>undefined\<close>; the iteration methods
  skip holes and call their callback on \<^verbatim>\<open>undefined\<close>, where \<^verbatim>\<open>url.trim()\<close> throws.
\<close>

datatype elem = Hole | Undefined | Str js_string

datatype error = TypeError

text \<open>
  The \<^verbatim>\<open>errors\<close> object: \<^verbatim>\<open>urls\<close> maps an index to its message, \<^verbatim>\<open>question\<close> and
  \<^verbatim>\<open>general\<close> are messages, the empty string when there is none. The fields are prefixed
  with \<open>err_\<close>, since \<open>urls\<close> and \<open>question\<close> are also state variables.
\<close>

record form_errors =
  err_urls :: "nat \<rightharpoonup> string"
  err_question :: string
  err_general :: string

text \<open>
  The state variables of \<^verbatim>\<open>WebQA\<close>, and \<open>pending\<close>: the number of mocked service calls
  (the promises of line 128) that have been started and have not resolved yet.
\<close>

record state =
  urls :: "elem list"
  question :: js_string
  answer :: string
  loading :: bool
  errors :: form_errors
  pending :: nat

definition no_errors :: form_errors where
  "no_errors = \<lparr>err_urls = Map.empty, err_question = [], err_general = []\<rparr>"

definition initial :: state where
  "initial = \<lparr>urls = [Str []], question = [], answer = [], loading = False,
     errors = no_errors, pending = 0\<rparr>"

definition invalid_url_message :: string where
  "invalid_url_message = ''Please enter a valid URL (e.g., https://example.com)''"

section \<open>Array methods\<close>

text \<open>\<^verbatim>\<open>[...xs]\<close>\<close>

fun spread_elem :: "elem \<Rightarrow> elem" where
  "spread_elem Hole = Undefined"
| "spread_elem x = x"

definition spread :: "elem list \<Rightarrow> elem list" where
  "spread xs = map spread_elem xs"

text \<open>
  \<^verbatim>\<open>xs[index] = v\<close>. The array indices are the integers below \<open>2\<^sup>3\<^sup>2 - 1\<close>. At an array
  index beyond the end the array is extended; from \<open>2\<^sup>3\<^sup>2 - 1\<close> on the assignment sets an
  ordinary property of the array object, which neither its length nor any method the
  component calls on it reads, and the elements are as before.
\<close>

definition assign :: "elem list \<Rightarrow> nat \<Rightarrow> elem \<Rightarrow> elem list" where
  "assign xs index v =
     (if index < length xs then xs[index := v]
      else if index < 2 ^ 32 - 1 then xs @ replicate (index - length xs) Hole @ [v]
      else xs)"

text \<open>\<^verbatim>\<open>xs.filter(f)\<close>, the callback receiving the element and its index; \<open>i\<close> is the index
  of the head of the list.\<close>

fun Array_filter :: "(elem \<Rightarrow> nat \<Rightarrow> error + bool) \<Rightarrow> nat \<Rightarrow> elem list \<Rightarrow> error + elem list" where
  "Array_filter f i [] = Inr []"
| "Array_filter f i (Hole # xs) = Array_filter f (Suc i) xs"
| "Array_filter f i (x # xs) =
     (case f x i of
        Inl e \<Rightarrow> Inl e
      | Inr keep \<Rightarrow>
          (case Array_filter f (Suc i) xs of
             Inl e \<Rightarrow> Inl e
           | Inr ys \<Rightarrow> Inr (if keep then x # ys else ys)))"

text \<open>\<^verbatim>\<open>xs.some(f)\<close>\<close>

fun Array_some :: "(elem \<Rightarrow> error + bool) \<Rightarrow> elem list \<Rightarrow> error + bool" where
  "Array_some f [] = Inr False"
| "Array_some f (Hole # xs) = Array_some f xs"
| "Array_some f (x # xs) =
     (case f x of
        Inl e \<Rightarrow> Inl e
      | Inr found \<Rightarrow> if found then Inr True else Array_some f xs)"

text \<open>\<^verbatim>\<open>xs.forEach(f)\<close>, where the callback updates the variables \<open>s\<close> it closes over.\<close>

fun Array_forEach :: "(elem \<Rightarrow> nat \<Rightarrow> 's \<Rightarrow> error + 's) \<Rightarrow> nat \<Rightarrow> elem list \<Rightarrow> 's \<Rightarrow> error + 's" where
  "Array_forEach f i [] s = Inr s"
| "Array_forEach f i (Hole # xs) s = Array_forEach f (Suc i) xs s"
| "Array_forEach f i (x # xs) s =
     (case f x i s of
        Inl e \<Rightarrow> Inl e
      | Inr s' \<Rightarrow> Array_forEach f (Suc i) xs s')"

section \<open>The functions of the component\<close>

text \<open>\<^verbatim>\<open>isValidUrl\<close>, lines 42 to 49.\<close>

definition isValidUrl :: "url_constructor \<Rightarrow> js_string \<Rightarrow> bool" where
  "isValidUrl newURL urlString =
     (case newURL urlString of
        None \<Rightarrow> False
      | Some u \<Rightarrow> protocol u = js ''http:'' \<or> protocol u = js ''https:'')"

text \<open>The callbacks \<^verbatim>\<open>url.trim() !== ""\<close>, \<^verbatim>\<open>url.trim() !== "" && isValidUrl(url)\<close> and
  \<^verbatim>\<open>url.trim() !== "" && !isValidUrl(url)\<close>.\<close>

fun nonBlank :: "elem \<Rightarrow> error + bool" where
  "nonBlank (Str s) = Inr (trim s \<noteq> [])"
| "nonBlank _ = Inl TypeError"

fun nonBlankValid :: "url_constructor \<Rightarrow> elem \<Rightarrow> error + bool" where
  "nonBlankValid newURL (Str s) = Inr (trim s \<noteq> [] \<and> isValidUrl newURL s)"
| "nonBlankValid newURL _ = Inl TypeError"

fun nonBlankInvalid :: "url_constructor \<Rightarrow> elem \<Rightarrow> error + bool" where
  "nonBlankInvalid newURL (Str s) = Inr (trim s \<noteq> [] \<and> \<not> isValidUrl newURL s)"
| "nonBlankInvalid newURL _ = Inl TypeError"

text \<open>\<^verbatim>\<open>hasValidUrls\<close>, lines 51 to 53.\<close>

definition hasValidUrls :: "url_constructor \<Rightarrow> state \<Rightarrow> error + bool" where
  "hasValidUrls newURL st = Array_some (nonBlankValid newURL) (urls st)"

text \<open>\<^verbatim>\<open>handleUrlChange\<close>, lines 55 to 73. The two \<^verbatim>\<open>setErrors\<close> calls are applied in order:
  the updater function of the second receives the object passed to the first.\<close>

definition handleUrlChange :: "url_constructor \<Rightarrow> state \<Rightarrow> nat \<Rightarrow> js_string \<Rightarrow> state" where
  "handleUrlChange newURL st index v =
     (let newUrls = assign (spread (urls st)) index (Str v);
          newErrors = (errors st)\<lparr>err_urls := (err_urls (errors st))(index := None)\<rparr>;
          st1 = st\<lparr>urls := newUrls, errors := newErrors\<rparr>
      in if trim v \<noteq> [] \<and> \<not> isValidUrl newURL v
         then st1\<lparr>errors := newErrors\<lparr>err_urls := (err_urls newErrors)(index \<mapsto> invalid_url_message)\<rparr>\<rparr>
         else st1)"

text \<open>\<^verbatim>\<open>addUrlField\<close>, lines 75 to 77.\<close>

definition addUrlField :: "state \<Rightarrow> state" where
  "addUrlField st = st\<lparr>urls := spread (urls st) @ [Str []]\<rparr>"

text \<open>\<^verbatim>\<open>removeUrlField\<close>, lines 79 to 87.\<close>

definition removeUrlField :: "state \<Rightarrow> nat \<Rightarrow> error + state" where
  "removeUrlField st index =
     (case Array_filter (\<lambda>_ i. Inr (i \<noteq> index)) 0 (urls st) of
        Inl e \<Rightarrow> Inl e
      | Inr filtered \<Rightarrow>
          (let newUrls = (if length filtered = 0 then filtered @ [Str []] else filtered);
               newErrors = (errors st)\<lparr>err_urls := (err_urls (errors st))(index := None)\<rparr>
           in Inr (st\<lparr>urls := newUrls, errors := newErrors\<rparr>)))"

text \<open>\<^verbatim>\<open>validateForm\<close>, lines 89 to 117: the value returned and the state after
  \<^verbatim>\<open>setErrors(newErrors)\<close>. The pair threaded through \<^verbatim>\<open>forEach\<close> is
  \<^verbatim>\<open>(newErrors, isValid)\<close>.\<close>

definition validate_entry :: "url_constructor \<Rightarrow> elem \<Rightarrow> nat \<Rightarrow> form_errors \<times> bool \<Rightarrow> error + form_errors \<times> bool" where
  "validate_entry newURL url index acc =
     (case nonBlankInvalid newURL url of
        Inl e \<Rightarrow> Inl e
      | Inr bad \<Rightarrow>
          if bad
          then Inr ((fst acc)\<lparr>err_urls := (err_urls (fst acc))(index \<mapsto> invalid_url_message)\<rparr>, False)
          else Inr acc)"

definition validateForm :: "url_constructor \<Rightarrow> state \<Rightarrow> error + bool \<times> state" where
  "validateForm newURL st =
     (case Array_filter (\<lambda>url _. nonBlank url) 0 (urls st) of
        Inl e \<Rightarrow> Inl e
      | Inr validUrls \<Rightarrow>
          (case (if length validUrls = 0
                 then Inr (no_errors\<lparr>err_general := ''Please enter at least one URL''\<rparr>, False)
                 else Array_forEach (validate_entry newURL) 0 (urls st) (no_errors, True)) of
             Inl e \<Rightarrow> Inl e
           | Inr (newErrors, isValid) \<Rightarrow>
               if trim (question st) = []
               then Inr (False, st\<lparr>errors := newErrors\<lparr>err_question := ''Please enter a question''\<rparr>\<rparr>)
               else Inr (isValid, st\<lparr>errors := newErrors\<rparr>)))"

text \<open>
  \<^verbatim>\<open>handleSubmit\<close>, lines 119 to 138, up to the \<^verbatim>\<open>await\<close>. When the filter of line 127
  throws, the \<^verbatim>\<open>catch\<close> and \<^verbatim>\<open>finally\<close> blocks run at once; otherwise the mocked
  call is started and the function is suspended.
\<close>

definition handleSubmit :: "url_constructor \<Rightarrow> state \<Rightarrow> error + state" where
  "handleSubmit newURL st =
     (case validateForm newURL st of
        Inl e \<Rightarrow> Inl e
      | Inr (isValid, st1) \<Rightarrow>
          if \<not> isValid then Inr st1
          else
            (let st2 = st1\<lparr>loading := True, errors := no_errors, answer := []\<rparr>
             in case Array_filter (\<lambda>url _. nonBlankValid newURL url) 0 (urls st2) of
                  Inl e \<Rightarrow>
                    Inr (st2\<lparr>errors := (errors st2)\<lparr>err_general :=
                           ''An error occurred while processing your request''\<rparr>,
                         loading := False\<rparr>)
                | Inr validUrls \<Rightarrow> Inr (st2\<lparr>pending := Suc (pending st2)\<rparr>)))"

text \<open>The rest of \<^verbatim>\<open>handleSubmit\<close>, run when the promise of line 128 resolves: line 129
  and the \<^verbatim>\<open>finally\<close> block.\<close>

definition handleSubmit_resume :: "state \<Rightarrow> state" where
  "handleSubmit_resume st =
     st\<lparr>answer := ''This is a sample answer based on the provided URLs.'',
        loading := False, pending := pending st - 1\<rparr>"

text \<open>The \<^verbatim>\<open>onChange\<close> handler of the question field, lines 256 to 259.\<close>

definition handleQuestionChange :: "state \<Rightarrow> js_string \<Rightarrow> state" where
  "handleQuestionChange st v =
     st\<lparr>question := v, errors := (errors st)\<lparr>err_question := []\<rparr>\<rparr>"

text \<open>The \<^verbatim>\<open>disabled\<close> attributes of the question field (line 262), of the submit button
  (line 274, where \<^verbatim>\<open>||\<close> does not evaluate its right operand when \<^verbatim>\<open>loading\<close> holds)
  and of the remove buttons (line 214).\<close>

definition question_disabled :: "url_constructor \<Rightarrow> state \<Rightarrow> error + bool" where
  "question_disabled newURL st =
     (case hasValidUrls newURL st of Inl e \<Rightarrow> Inl e | Inr b \<Rightarrow> Inr (\<not> b))"

definition submit_disabled :: "url_constructor \<Rightarrow> state \<Rightarrow> error + bool" where
  "submit_disabled newURL st =
     (if loading st then Inr True
      else case hasValidUrls newURL st of Inl e \<Rightarrow> Inl e | Inr b \<Rightarrow> Inr (\<not> b))"

definition remove_disabled :: "state \<Rightarrow> bool" where
  "remove_disabled st = (length (urls st) = 1)"

section \<open>Validity as the specification words it\<close>

text \<open>An entry is valid when it parses as an absolute URL whose scheme is \<^verbatim>\<open>http\<close> or
  \<^verbatim>\<open>https\<close>; it is blank when its trimmed text is empty.\<close>

definition parses_http :: "url_constructor \<Rightarrow> js_string \<Rightarrow> bool" where
  "parses_http newURL s =
     (case newURL s of
        None \<Rightarrow> False
      | Some u \<Rightarrow> scheme u = js ''http'' \<or> scheme u = js ''https'')"

definition blank :: "js_string \<Rightarrow> bool" where
  "blank s = (trim s = [])"

section \<open>Events of the rendered page\<close>

text \<open>
  The page is rendered again after every event, so a handler runs on the state its
  controls were rendered from. A text field and a remove button exist for every element
  that \<^verbatim>\<open>urls.map\<close> visits; \<open>Resolve\<close> is the timer of a pending mocked call firing.
\<close>

datatype event =
  UrlChange nat js_string
| AddUrl
| RemoveUrl nat
| QuestionChange js_string
| SubmitClick
| Resolve

fun offered :: "url_constructor \<Rightarrow> state \<Rightarrow> event \<Rightarrow> bool" where
  "offered newURL st (UrlChange index v) = (index < length (urls st) \<and> urls st ! index \<noteq> Hole)"
| "offered newURL st AddUrl = True"
| "offered newURL st (RemoveUrl index) =
     (index < length (urls st) \<and> urls st ! index \<noteq> Hole \<and> \<not> remove_disabled st)"
| "offered newURL st (QuestionChange v) = (question_disabled newURL st = Inr False)"
| "offered newURL st SubmitClick = (submit_disabled newURL st = Inr False)"
| "offered newURL st Resolve = (0 < pending st)"

fun dispatch :: "url_constructor \<Rightarrow> state \<Rightarrow> event \<Rightarrow> error + state" where
  "dispatch newURL st (UrlChange index v) = Inr (handleUrlChange newURL st index v)"
| "dispatch newURL st AddUrl = Inr (addUrlField st)"
| "dispatch newURL st (RemoveUrl index) = removeUrlField st index"
| "dispatch newURL st (QuestionChange v) = Inr (handleQuestionChange st v)"
| "dispatch newURL st SubmitClick = handleSubmit newURL st"
| "dispatch newURL st Resolve = Inr (handleSubmit_resume st)"

inductive reachable :: "url_constructor \<Rightarrow> state \<Rightarrow> bool" for newURL where
  start: "reachable newURL initial"
| step: "reachable newURL st \<Longrightarrow> offered newURL st ev \<Longrightarrow> dispatch newURL st ev = Inr st' \<Longrightarrow>
         reachable newURL st'"

section \<open>Facts about the array methods on arrays of strings\<close>

lemma isValidUrl_parses_http: "isValidUrl newURL s = parses_http newURL s"
  by (simp add: isValidUrl_def parses_http_def protocol_def js_def split: option.splits)

lemma filter_nonBlank_Str:
  "Array_filter (\<lambda>url _. nonBlank url) i (map Str xs) =
     Inr (map Str (filter (\<lambda>x. trim x \<noteq> []) xs))"
  by (induction xs arbitrary: i) simp_all

lemma forEach_no_invalid:
  "\<forall>x\<in>set xs. trim x \<noteq> [] \<longrightarrow> isValidUrl newURL x \<Longrightarrow>
   Array_forEach (validate_entry newURL) i (map Str xs) acc = Inr acc"
  by (induction xs arbitrary: i) (auto simp: validate_entry_def)

lemma some_nonBlankValid_Str:
  "Array_some (nonBlankValid newURL) (map Str xs) =
     Inr (\<exists>x\<in>set xs. trim x \<noteq> [] \<and> isValidUrl newURL x)"
  by (induction xs) auto

lemma filter_index_total:
  "\<exists>ys. Array_filter (\<lambda>_ i. Inr (i \<noteq> index)) j us = Inr ys"
proof (induction us arbitrary: j)
  case Nil
  then show ?case by simp
next
  case (Cons u us)
  from Cons [of "Suc j"]
  obtain ys where "Array_filter (\<lambda>_ i. Inr (i \<noteq> index)) (Suc j) us = Inr ys" ..
  then show ?case by (cases u) simp_all
qed

lemma filter_index_passed:
  "index < j \<Longrightarrow> Hole \<notin> set us \<Longrightarrow>
   Array_filter (\<lambda>_ i. Inr (i \<noteq> index)) j us = Inr us"
proof (induction us arbitrary: j)
  case Nil
  then show ?case by simp
next
  case (Cons u us)
  then have "Array_filter (\<lambda>_ i. Inr (i \<noteq> index)) (Suc j) us = Inr us" by simp
  with Cons.prems show ?case by (cases u) simp_all
qed

lemma filter_index_dense:
  "j \<le> index \<Longrightarrow> Hole \<notin> set us \<Longrightarrow>
   Array_filter (\<lambda>_ i. Inr (i \<noteq> index)) j us =
     Inr (take (index - j) us @ drop (Suc (index - j)) us)"
proof (induction us arbitrary: j)
  case Nil
  then show ?case by simp
next
  case (Cons u us)
  show ?case
  proof (cases "j = index")
    case True
    have "Array_filter (\<lambda>_ i. Inr (i \<noteq> index)) (Suc j) us = Inr us"
      using True Cons.prems by (simp add: filter_index_passed)
    with True Cons.prems show ?thesis by (cases u) simp_all
  next
    case False
    with Cons.prems have "Suc j \<le> index" by simp
    with Cons.prems Cons.IH [of "Suc j"]
    have "Array_filter (\<lambda>_ i. Inr (i \<noteq> index)) (Suc j) us =
            Inr (take (index - Suc j) us @ drop (Suc (index - Suc j)) us)" by simp
    moreover from False \<open>j \<le> index\<close> have "index - j = Suc (index - Suc j)" by simp
    ultimately show ?thesis using False Cons.prems by (cases u) simp_all
  qed
qed

section \<open>Facts about \<^verbatim>\<open>validateForm\<close> and \<^verbatim>\<open>handleSubmit\<close>\<close>

lemma validateForm_valid:
  assumes "\<exists>x\<in>set xs. \<not> blank x" and "\<not> blank q"
    and "\<forall>x\<in>set xs. \<not> blank x \<longrightarrow> parses_http newURL x"
  shows "validateForm newURL (st\<lparr>urls := map Str xs, question := q\<rparr>) =
           Inr (True, st\<lparr>urls := map Str xs, question := q,
                  errors := \<lparr>err_urls = Map.empty, err_question = [], err_general = []\<rparr>\<rparr>)"
proof -
  from assms(1) have ne: "filter (\<lambda>x. trim x \<noteq> []) xs \<noteq> []"
    by (simp add: filter_empty_conv blank_def)
  from assms(3) have ok: "\<forall>x\<in>set xs. trim x \<noteq> [] \<longrightarrow> isValidUrl newURL x"
    by (simp add: isValidUrl_parses_http blank_def)
  from assms(2) have q: "trim q \<noteq> []"
    by (simp add: blank_def)
  show ?thesis
    using ne q
    by (simp add: validateForm_def filter_nonBlank_Str forEach_no_invalid [OF ok] no_errors_def)
qed

lemma validateForm_blank:
  assumes "\<forall>x\<in>set xs. blank x"
  shows "validateForm newURL (st\<lparr>urls := map Str xs, question := q\<rparr>) =
           Inr (False, st\<lparr>urls := map Str xs, question := q,
             errors := \<lparr>err_urls = Map.empty,
                         err_question = (if blank q then ''Please enter a question'' else []),
                         err_general = ''Please enter at least one URL''\<rparr>\<rparr>)"
proof -
  from assms have "filter (\<lambda>x. trim x \<noteq> []) xs = []"
    by (simp add: filter_empty_conv blank_def)
  then show ?thesis
    by (simp add: validateForm_def filter_nonBlank_Str no_errors_def blank_def)
qed

lemma validateForm_frame:
  assumes "validateForm newURL st = Inr (ok, st')"
  shows "st' = st\<lparr>errors := errors st'\<rparr>"
  using assms
  by (auto simp: validateForm_def split: sum.splits if_splits prod.splits)

lemma handleSubmit_invalid:
  assumes "validateForm newURL st = Inr (False, st')"
  shows "handleSubmit newURL st = Inr st'"
  using assms by (simp add: handleSubmit_def)

section \<open>Concrete inputs\<close>

lemma example_https: "parses_http (URL_new no_tables) (js ''https://example.com'')"
  by code_simp

lemma example_not_a_url: "\<not> parses_http (URL_new no_tables) (js ''not-a-url'')"
  by code_simp

lemma example_blank:
  "blank (js [])" "blank (js ''  '')" "\<not> blank (js ''What?'')"
  "\<not> blank (js ''https://example.com'')" "\<not> blank (js ''not-a-url'')"
  by code_simp+

section \<open>Facts about the handlers of the URL list\<close>

lemma length_assign:
  "length (assign xs index v) =
     (if index < 2 ^ 32 - 1 then max (length xs) (Suc index) else length xs)"
  by (simp add: assign_def)

lemma assign_not_empty:
  assumes "xs \<noteq> [] \<or> index < 2 ^ 32 - 1"
  shows "1 \<le> length (assign xs index v)"
proof (cases "index < 2 ^ 32 - 1")
  case True
  then show ?thesis by (simp add: length_assign)
next
  case False
  with assms have "xs \<noteq> []" by simp
  then have "1 \<le> length xs" by (cases xs) simp_all
  with False show ?thesis by (simp add: length_assign)
qed

lemma removeUrlField_total:
  "\<exists>st'. removeUrlField st index = Inr st' \<and> 1 \<le> length (urls st')"
proof -
  obtain ys where "Array_filter (\<lambda>_ i. Inr (i \<noteq> index)) 0 (urls st) = Inr ys"
    using filter_index_total by blast
  then show ?thesis
    by (cases ys) (simp_all add: removeUrlField_def Let_def)
qed

lemma removeUrlField_only_entry:
  assumes "length (urls st) = 1"
  shows "\<exists>st'. removeUrlField st 0 = Inr st' \<and> urls st' = [Str []]"
proof -
  from assms obtain u where u: "urls st = [u]"
    by (cases "urls st") simp_all
  show ?thesis
    by (cases u) (simp_all add: removeUrlField_def u)
qed

lemma hasValidUrls_Str:
  "hasValidUrls newURL (st\<lparr>urls := map Str xs\<rparr>) =
     Inr (\<exists>x\<in>set xs. \<not> blank x \<and> parses_http newURL x)"
  by (simp add: hasValidUrls_def some_nonBlankValid_Str isValidUrl_parses_http blank_def)

lemma disabled_without_valid_url:
  "hasValidUrls newURL st = Inr False \<Longrightarrow>
   question_disabled newURL st = Inr True \<and> submit_disabled newURL st = Inr True"
  by (simp add: question_disabled_def submit_disabled_def)

section \<open>Facts about removing an entry\<close>

lemma length_remove_nth:
  "index < length xs \<Longrightarrow> length (take index xs @ drop (Suc index) xs) = length xs - 1"
  by simp

lemma nth_remove_nth:
  assumes "index < k" and "k < length xs"
  shows "(take index xs @ drop (Suc index) xs) ! (k - 1) = xs ! k"
proof -
  from assms have "length (take index xs) = index" by simp
  moreover from assms have "\<not> k - 1 < index" by simp
  moreover from assms have "Suc index + (k - 1 - index) = k" by simp
  ultimately show ?thesis using assms by (simp add: nth_append)
qed

lemma removeUrlField_Str:
  assumes "index < length xs"
  shows "removeUrlField (st\<lparr>urls := map Str xs\<rparr>) index =
           Inr (st\<lparr>urls := (if length xs = 1 then [Str []]
                              else map Str (take index xs @ drop (Suc index) xs)),
                   errors := (errors st)\<lparr>err_urls := (err_urls (errors st))(index := None)\<rparr>\<rparr>)"
proof -
  define ys where "ys = take index xs @ drop (Suc index) xs"
  have len: "length ys = length xs - 1"
    unfolding ys_def using assms by (rule length_remove_nth)
  have "Hole \<notin> set (map Str xs)" by auto
  then have f: "Array_filter (\<lambda>_ i. Inr (i \<noteq> index)) 0 (map Str xs) = Inr (map Str ys)"
    using filter_index_dense [of 0 index "map Str xs"] by (simp add: take_map drop_map ys_def)
  show ?thesis
  proof (cases "length xs = 1")
    case True
    with len have "ys = []" by simp
    with True f show ?thesis by (simp add: removeUrlField_def)
  next
    case False
    with assms len have "ys \<noteq> []" by (cases ys) simp_all
    with False f show ?thesis by (simp add: removeUrlField_def Let_def ys_def [symmetric])
  qed
qed

lemma scenario_A:
  "validateForm (URL_new no_tables)
     (initial\<lparr>urls := [Str (js ''not-a-url'')], question := js ''What?''\<rparr>) =
   Inr (False, initial\<lparr>urls := [Str (js ''not-a-url'')], question := js ''What?'',
          errors := \<lparr>err_urls = [0 \<mapsto> invalid_url_message], err_question = [],
                      err_general = []\<rparr>\<rparr>)"
proof -
  have "trim (js ''not-a-url'') \<noteq> []" "trim (js ''What?'') \<noteq> []"
    using example_blank by (simp_all add: blank_def)
  moreover have "\<not> isValidUrl (URL_new no_tables) (js ''not-a-url'')"
    using example_not_a_url by (simp add: isValidUrl_parses_http)
  ultimately show ?thesis
    by (simp add: validateForm_def validate_entry_def no_errors_def)
qed

section \<open>Facts about an index beyond the end, and about the errors after an edit\<close>

lemma removeUrlField_out_of_range:
  assumes "length xs \<le> index" and "xs \<noteq> []"
  shows "removeUrlField (st\<lparr>urls := map Str xs\<rparr>) index =
           Inr (st\<lparr>urls := map Str xs,
                   errors := (errors st)\<lparr>err_urls := (err_urls (errors st))(index := None)\<rparr>\<rparr>)"
proof -
  have "Hole \<notin> set (map Str xs)" by auto
  then have "Array_filter (\<lambda>_ i. Inr (i \<noteq> index)) 0 (map Str xs) = Inr (map Str xs)"
    using filter_index_dense [of 0 index "map Str xs"] assms(1) by simp
  with assms(2) show ?thesis by (simp add: removeUrlField_def)
qed

lemma spread_Str: "spread (map Str xs) = map Str xs"
  by (induction xs) (simp_all add: spread_def)

lemma handleUrlChange_out_of_range:
  assumes "length xs \<le> index" and "index < 2 ^ 32 - 1"
  shows "urls (handleUrlChange newURL (st\<lparr>urls := map Str xs\<rparr>) index v) =
           map Str xs @ replicate (index - length xs) Hole @ [Str v]"
  using assms by (simp add: handleUrlChange_def Let_def spread_Str assign_def)

lemma handleUrlChange_errors:
  "errors (handleUrlChange newURL st index v) =
     (errors st)\<lparr>err_urls :=
        (err_urls (errors st))(index :=
           (if \<not> blank v \<and> \<not> parses_http newURL v then Some invalid_url_message else None))\<rparr>"
  by (simp add: handleUrlChange_def Let_def blank_def isValidUrl_parses_http)

section \<open>Facts about the scheme state\<close>

lemma colon_facts:
  "\<not> scheme_code_point 0x3A" "\<not> c0_control_or_space 0x3A" "\<not> ascii_tab_or_newline 0x3A"
  by (simp_all add: scheme_code_point_def ascii_alpha_def ascii_upper_alpha_def
      ascii_lower_alpha_def ascii_digit_def c0_control_or_space_def ascii_tab_or_newline_def)

lemma alpha_not_c0: "ascii_alpha c \<Longrightarrow> \<not> c0_control_or_space c"
  unfolding ascii_alpha_def ascii_upper_alpha_def ascii_lower_alpha_def c0_control_or_space_def
  by unat_arith

lemma scheme_not_tab: "scheme_code_point c \<Longrightarrow> \<not> ascii_tab_or_newline c"
  by (auto simp: scheme_code_point_def ascii_alpha_def ascii_upper_alpha_def
      ascii_lower_alpha_def ascii_digit_def ascii_tab_or_newline_def)

lemma scheme_state_colon:
  "list_all scheme_code_point a \<Longrightarrow>
   scheme_state buffer (a @ 0x3A # r) = Some (buffer @ map ascii_lowercase a, r)"
  by (induction a arbitrary: buffer) (simp_all add: colon_facts)

lemma scheme_start_state_colon:
  assumes "a \<noteq> []" and "ascii_alpha (hd a)" and "list_all scheme_code_point a"
  shows "scheme_start_state (a @ 0x3A # r) = Some (map ascii_lowercase a, r)"
proof -
  from assms(1) obtain x a' where a: "a = x # a'" by (cases a) simp_all
  with assms show ?thesis
    by (simp add: scheme_start_state_def scheme_state_colon)
qed

lemma strip_trailing_colon:
  "strip_trailing (a @ 0x3A # r) = a @ 0x3A # strip_trailing r"
proof (cases "\<forall>c\<in>set (rev r). c0_control_or_space c")
  case True
  then have "dropWhile c0_control_or_space (rev r) = []" by simp
  with True show ?thesis
    by (simp add: strip_trailing_def dropWhile_append colon_facts)
next
  case False
  then show ?thesis
    by (simp add: strip_trailing_def dropWhile_append colon_facts)
qed

lemma strip_input_colon:
  assumes "a \<noteq> []" and "ascii_alpha (hd a)" and "list_all scheme_code_point a"
  shows "strip_input (a @ 0x3A # r) = a @ 0x3A # remove_tab_newline (strip_trailing r)"
proof -
  from assms(1) obtain x a' where a: "a = x # a'" by (cases a) simp_all
  with assms(2) have "dropWhile c0_control_or_space (a @ 0x3A # r) = a @ 0x3A # r"
    by (simp add: alpha_not_c0)
  moreover from assms(3) have "filter (\<lambda>c. \<not> ascii_tab_or_newline c) a = a"
    by (simp add: list_all_iff scheme_not_tab)
  ultimately show ?thesis
    by (simp add: strip_input_def strip_trailing_colon remove_tab_newline_def colon_facts)
qed

lemma basic_URL_parser_scheme:
  assumes "a \<noteq> []" and "ascii_alpha (hd a)" and "list_all scheme_code_point a"
  shows "basic_URL_parser after (a @ js '':'' @ r) =
           (if after (map ascii_lowercase a) (remove_tab_newline (strip_trailing r))
            then Some \<lparr>scheme = map ascii_lowercase a\<rparr> else None)"
proof -
  have "a @ js '':'' @ r = a @ 0x3A # r" by (simp add: js_def)
  with assms show ?thesis
    by (simp add: basic_URL_parser_def strip_input_colon scheme_start_state_colon)
qed

lemma isValidUrl_scheme_text:
  assumes "a \<noteq> []" and "ascii_alpha (hd a)" and "list_all scheme_code_point a"
  shows "isValidUrl (basic_URL_parser after) (a @ js '':'' @ r) =
           ((map ascii_lowercase a = js ''http'' \<or> map ascii_lowercase a = js ''https'') \<and>
            after (map ascii_lowercase a) (remove_tab_newline (strip_trailing r)))"
  using assms
  by (auto simp: isValidUrl_parses_http parses_http_def basic_URL_parser_scheme)

lemma isValidUrl_iff_scheme:
  "isValidUrl newURL s \<longleftrightarrow>
     (\<exists>u. newURL s = Some u \<and> (scheme u = js ''http'' \<or> scheme u = js ''https''))"
  by (auto simp: isValidUrl_parses_http parses_http_def split: option.splits)

lemma example_scheme:
  "js ''HTTP'' \<noteq> []" "ascii_alpha (hd (js ''HTTP''))" "list_all scheme_code_point (js ''HTTP'')"
  "map ascii_lowercase (js ''HTTP'') = js ''http''"
  "after_scheme no_tables (js ''http'') (remove_tab_newline (strip_trailing (js ''//example.com/a '')))"
  by code_simp+

section \<open>Facts about the calls in flight\<close>

lemma removeUrlField_frame:
  assumes "removeUrlField st index = Inr st'"
  shows "loading st' = loading st \<and> pending st' = pending st"
  using assms by (auto simp: removeUrlField_def Let_def split: sum.splits)

lemma handleUrlChange_frame:
  "loading (handleUrlChange newURL st index v) = loading st \<and>
   pending (handleUrlChange newURL st index v) = pending st"
  by (simp add: handleUrlChange_def Let_def)

lemma filter_nonBlankValid_Str:
  "Array_filter (\<lambda>url _. nonBlankValid newURL url) i (map Str xs) =
     Inr (map Str (filter (\<lambda>x. trim x \<noteq> [] \<and> isValidUrl newURL x) xs))"
  by (induction xs arbitrary: i) simp_all

lemma handleSubmit_pending:
  assumes "handleSubmit newURL st = Inr st'" and "\<not> loading st" and "pending st = 0"
  shows "pending st' = (if loading st' then 1 else 0)"
proof (cases "validateForm newURL st")
  case (Inl e)
  with assms(1) show ?thesis by (simp add: handleSubmit_def)
next
  case (Inr r)
  obtain ok st1 where r: "r = (ok, st1)" by (cases r)
  with Inr have v: "validateForm newURL st = Inr (ok, st1)" by simp
  then have "st1 = st\<lparr>errors := errors st1\<rparr>" by (rule validateForm_frame)
  then have "loading st1 = loading (st\<lparr>errors := errors st1\<rparr>)"
    and "pending st1 = pending (st\<lparr>errors := errors st1\<rparr>)" by simp_all
  with assms(2,3) have "\<not> loading st1" "pending st1 = 0" by simp_all
  with assms(1) v show ?thesis
    by (auto simp: handleSubmit_def Let_def split: if_splits sum.splits)
qed

lemma reachable_pending:
  assumes "reachable newURL st"
  shows "pending st = (if loading st then 1 else 0)"
  using assms
proof (induction rule: reachable.induct)
  case start
  show ?case by (simp add: initial_def)
next
  case (step st ev st')
  show ?case
  proof (cases ev)
    case (UrlChange index v)
    with step handleUrlChange_frame [of newURL st index v] show ?thesis by simp
  next
    case AddUrl
    with step show ?thesis by (auto simp: addUrlField_def)
  next
    case (RemoveUrl index)
    with step removeUrlField_frame [of st index st'] show ?thesis by simp
  next
    case (QuestionChange v)
    with step show ?thesis by (auto simp: handleQuestionChange_def)
  next
    case SubmitClick
    with step have "\<not> loading st"
      by (auto simp: submit_disabled_def split: if_splits)
    with step SubmitClick show ?thesis
      using handleSubmit_pending [of newURL st st'] by simp
  next
    case Resolve
    with step show ?thesis by (auto simp: handleSubmit_resume_def split: if_splits)
  qed
qed

lemma loading_disables_submit:
  "loading st \<Longrightarrow> submit_disabled newURL st = Inr True \<and> \<not> offered newURL st SubmitClick"
  by (simp add: submit_disabled_def)

lemma handleSubmit_valid:
  assumes "\<exists>x\<in>set xs. \<not> blank x" and "\<not> blank q"
    and "\<forall>x\<in>set xs. \<not> blank x \<longrightarrow> parses_http newURL x"
  shows "handleSubmit newURL (st\<lparr>urls := map Str xs, question := q\<rparr>) =
           Inr (st\<lparr>urls := map Str xs, question := q, answer := [], loading := True,
                   errors := no_errors, pending := Suc (pending st)\<rparr>)"
proof -
  from validateForm_valid [OF assms, of st] show ?thesis
    by (simp add: handleSubmit_def filter_nonBlankValid_Str no_errors_def)
qed

lemma reachable_after_submit:
  "reachable (URL_new no_tables)
     (initial\<lparr>urls := map Str [js ''https://example.com''], question := js ''What?'',
              loading := True, pending := 1\<rparr>)"
proof -
  let ?P = "URL_new no_tables"
  let ?u = "js ''https://example.com''"
  let ?q = "js ''What?''"
  define s1 where "s1 = handleUrlChange ?P initial 0 ?u"
  define s2 where "s2 = handleQuestionChange s1 ?q"
  have valid: "isValidUrl ?P ?u"
    using example_https by (simp add: isValidUrl_parses_http)
  have s1: "s1 = initial\<lparr>urls := map Str [?u]\<rparr>"
    using valid by (simp add: s1_def handleUrlChange_def Let_def initial_def spread_def
        assign_def no_errors_def)
  have s2: "s2 = initial\<lparr>urls := map Str [?u], question := ?q\<rparr>"
    by (simp add: s2_def s1 handleQuestionChange_def initial_def no_errors_def)
  have h1: "\<exists>x\<in>set [?u]. \<not> blank x"
    using example_blank by simp
  have h2: "\<not> blank ?q"
    using example_blank by simp
  have h3: "\<forall>x\<in>set [?u]. \<not> blank x \<longrightarrow> parses_http ?P x"
    using example_https by simp
  have has1: "hasValidUrls ?P s1 = Inr True"
    using hasValidUrls_Str [where newURL = ?P and st = initial and xs = "[?u]"] h1 h3
    by (simp add: s1)
  have has2: "hasValidUrls ?P s2 = Inr True"
    using has1 by (simp add: hasValidUrls_def s1 s2)
  have r1: "reachable ?P s1"
  proof (rule reachable.step [OF reachable.start, of ?P "UrlChange 0 ?u"])
    show "offered ?P initial (UrlChange 0 ?u)" by (simp add: initial_def)
    show "dispatch ?P initial (UrlChange 0 ?u) = Inr s1" by (simp add: s1_def)
  qed
  have r2: "reachable ?P s2"
  proof (rule reachable.step [OF r1, of "QuestionChange ?q"])
    show "offered ?P s1 (QuestionChange ?q)" by (simp add: question_disabled_def has1)
    show "dispatch ?P s1 (QuestionChange ?q) = Inr s2" by (simp add: s2_def)
  qed
  show ?thesis
  proof (rule reachable.step [OF r2, of SubmitClick])
    show "offered ?P s2 SubmitClick"
      by (simp add: submit_disabled_def has2) (simp add: s2 initial_def)
    from handleSubmit_valid [OF h1 h2 h3, of initial]
    show "dispatch ?P s2 SubmitClick =
            Inr (initial\<lparr>urls := map Str [?u], question := ?q, loading := True, pending := 1\<rparr>)"
      by (simp add: s2 initial_def)
  qed
qed

section \<open>The claims\<close>

text \<open>
  C1. For every URL list with at least one non-blank entry and every question whose trimmed
  text is non-empty: if every non-blank entry parses as an absolute URL with scheme http or
  https, \<^verbatim>\<open>validateForm\<close> returns true and sets an error structure with no URL error, no
  question error and no general error.
\<close>

theorem validateForm_accepts_valid_form:
  assumes "\<exists>x\<in>set xs. \<not> blank x" and "\<not> blank q"
    and "\<forall>x\<in>set xs. \<not> blank x \<longrightarrow> parses_http newURL x"
  shows "validateForm newURL (st\<lparr>urls := map Str xs, question := q\<rparr>) =
           Inr (True, st\<lparr>urls := map Str xs, question := q,
                  errors := \<lparr>err_urls = Map.empty, err_question = [], err_general = []\<rparr>\<rparr>)"
  using assms by (rule validateForm_valid)

theorem validateForm_accepts_valid_form_witness:
  "\<not> blank (js ''https://example.com'') \<and> blank (js ''  '') \<and>
   \<not> blank (js ''What?'') \<and>
   parses_http (URL_new no_tables) (js ''https://example.com'') \<and>
   validateForm (URL_new no_tables)
     (initial\<lparr>urls := map Str [js ''https://example.com'', js ''  ''],
              question := js ''What?''\<rparr>) =
   Inr (True, initial\<lparr>urls := map Str [js ''https://example.com'', js ''  ''],
                question := js ''What?'',
                errors := \<lparr>err_urls = Map.empty, err_question = [], err_general = []\<rparr>\<rparr>)"
proof -
  have h1: "\<exists>x\<in>set [js ''https://example.com'', js ''  '']. \<not> blank x"
    using example_blank by simp
  have h2: "\<not> blank (js ''What?'')"
    using example_blank by simp
  have h3: "\<forall>x\<in>set [js ''https://example.com'', js ''  ''].
              \<not> blank x \<longrightarrow> parses_http (URL_new no_tables) x"
    using example_blank example_https by simp
  from validateForm_accepts_valid_form [OF h1 h2 h3, of initial] example_blank example_https
  show ?thesis
    by blast
qed

text \<open>
  C2. For every URL list whose entries are all blank, \<^verbatim>\<open>validateForm\<close> returns false and
  sets the general error to "Please enter at least one URL", whatever the question is; no
  URL error is recorded, and the result does not depend on the URL constructor.
\<close>

theorem validateForm_all_blank:
  assumes "\<forall>x\<in>set xs. blank x"
  shows "validateForm newURL (st\<lparr>urls := map Str xs, question := q\<rparr>) =
           Inr (False, st\<lparr>urls := map Str xs, question := q,
             errors := \<lparr>err_urls = Map.empty,
                         err_question = (if blank q then ''Please enter a question'' else []),
                         err_general = ''Please enter at least one URL''\<rparr>\<rparr>)"
  using assms by (rule validateForm_blank)

theorem validateForm_all_blank_witness:
  "blank (js []) \<and> blank (js ''  '') \<and> \<not> blank (js ''What?'') \<and>
   validateForm (URL_new no_tables)
     (initial\<lparr>urls := map Str [js [], js ''  ''], question := js ''What?''\<rparr>) =
   Inr (False, initial\<lparr>urls := map Str [js [], js ''  ''], question := js ''What?'',
          errors := \<lparr>err_urls = Map.empty, err_question = [],
                      err_general = ''Please enter at least one URL''\<rparr>\<rparr>)"
proof -
  have h: "\<forall>x\<in>set [js [], js ''  '']. blank x"
    using example_blank by simp
  from validateForm_all_blank
    [OF h, where newURL = "URL_new no_tables" and st = initial and q = "js ''What?''"]
    example_blank
  show ?thesis by simp
qed

text \<open>
  C3. The URL list is never empty: after \<^verbatim>\<open>addUrlField\<close>, after \<^verbatim>\<open>handleUrlChange\<close> and
  after \<^verbatim>\<open>removeUrlField\<close> (which never throws) its length is at least 1, and removing
  the only entry leaves exactly one entry, whose text is empty. For \<^verbatim>\<open>handleUrlChange\<close> the
  list before is non-empty, as the invariant has it, or the index is an array index.
\<close>

theorem urls_never_empty:
  "1 \<le> length (urls (addUrlField st)) \<and>
   (urls st \<noteq> [] \<or> index < 2 ^ 32 - 1 \<longrightarrow>
      1 \<le> length (urls (handleUrlChange newURL st index v))) \<and>
   (\<exists>st'. removeUrlField st index = Inr st' \<and> 1 \<le> length (urls st')) \<and>
   (length (urls st) = 1 \<longrightarrow> (\<exists>st'. removeUrlField st 0 = Inr st' \<and> urls st' = [Str []]))"
proof -
  have "1 \<le> length (urls (addUrlField st))"
    by (simp add: addUrlField_def)
  moreover have "1 \<le> length (urls (handleUrlChange newURL st index v))"
    if "urls st \<noteq> [] \<or> index < 2 ^ 32 - 1"
  proof -
    from that have "spread (urls st) \<noteq> [] \<or> index < 2 ^ 32 - 1"
      by (simp add: spread_def)
    then have "1 \<le> length (assign (spread (urls st)) index (Str v))"
      by (rule assign_not_empty)
    then show ?thesis
      by (simp add: handleUrlChange_def Let_def)
  qed
  ultimately show ?thesis
    using removeUrlField_total [of st index] removeUrlField_only_entry [of st] by blast
qed

theorem urls_never_empty_witness:
  "urls (initial\<lparr>urls := [Str (js ''https://example.com'')]\<rparr>) \<noteq> [] \<and>
   1 \<le> length (urls (handleUrlChange (URL_new no_tables)
          (initial\<lparr>urls := [Str (js ''https://example.com'')]\<rparr>) 0 (js ''x''))) \<and>
   length (urls (initial\<lparr>urls := [Str (js ''https://example.com'')]\<rparr>)) = 1 \<and>
   (\<exists>st'. removeUrlField (initial\<lparr>urls := [Str (js ''https://example.com'')]\<rparr>) 0 = Inr st' \<and>
      urls st' = [Str []])"
  using urls_never_empty [where st = "initial\<lparr>urls := [Str (js ''https://example.com'')]\<rparr>"
      and newURL = "URL_new no_tables" and index = 0 and v = "js ''x''"]
  by simp

text \<open>
  C4, as stated: while a call is in flight \<^verbatim>\<open>handleSubmit\<close> is a no-op, because the function
  itself rejects a second invocation. \<^verbatim>\<open>handleSubmit\<close> does not read \<^verbatim>\<open>loading\<close>: invoked on a
  valid form while \<^verbatim>\<open>loading\<close> holds and one call is in flight, it starts a second call.
\<close>

theorem handleSubmit_while_loading_counterexample:
  "handleSubmit (URL_new no_tables)
     (initial\<lparr>urls := map Str [js ''https://example.com''], question := js ''What?'',
              loading := True, pending := 1\<rparr>) =
   Inr (initial\<lparr>urls := map Str [js ''https://example.com''], question := js ''What?'',
              loading := True, pending := 2\<rparr>)"
proof -
  have h1: "\<exists>x\<in>set [js ''https://example.com'']. \<not> blank x"
    using example_blank by simp
  have h2: "\<not> blank (js ''What?'')"
    using example_blank by simp
  have h3: "\<forall>x\<in>set [js ''https://example.com''].
              \<not> blank x \<longrightarrow> parses_http (URL_new no_tables) x"
    using example_https by simp
  from handleSubmit_valid [OF h1 h2 h3, of "initial\<lparr>loading := True, pending := 1\<rparr>"]
  show ?thesis by (simp add: initial_def)
qed

text \<open>
  C4, amended: while \<^verbatim>\<open>loading\<close> holds the submit button is disabled, so the page does not
  offer the submit event, and in every state reached from the initial one by events the
  page offers, at most one call is in flight.
\<close>

theorem one_call_in_flight:
  assumes "reachable newURL st"
  shows "pending st \<le> 1 \<and>
         (loading st \<longrightarrow>
            submit_disabled newURL st = Inr True \<and> \<not> offered newURL st SubmitClick)"
  using reachable_pending [OF assms] loading_disables_submit [of st newURL]
  by (simp split: if_splits)

theorem one_call_in_flight_witness:
  "reachable (URL_new no_tables)
     (initial\<lparr>urls := map Str [js ''https://example.com''], question := js ''What?'',
              loading := True, pending := 1\<rparr>) \<and>
   loading (initial\<lparr>urls := map Str [js ''https://example.com''], question := js ''What?'',
              loading := True, pending := 1\<rparr>) \<and>
   pending (initial\<lparr>urls := map Str [js ''https://example.com''], question := js ''What?'',
              loading := True, pending := 1\<rparr>) \<le> 1 \<and>
   submit_disabled (URL_new no_tables)
     (initial\<lparr>urls := map Str [js ''https://example.com''], question := js ''What?'',
              loading := True, pending := 1\<rparr>) = Inr True"
  using one_call_in_flight [OF reachable_after_submit] reachable_after_submit
  by simp

text \<open>
  C5, as stated: for an index out of range, \<^verbatim>\<open>handleUrlChange\<close> and \<^verbatim>\<open>removeUrlField\<close> fail
  with an IndexError and leave the list unchanged. Neither handler has a range check. On the
  initial list \<^verbatim>\<open>[""]\<close>, \<^verbatim>\<open>handleUrlChange(1, "x")\<close> returns with the list \<^verbatim>\<open>["", "x"]\<close>, and
  \<^verbatim>\<open>removeUrlField(1)\<close> returns normally.
\<close>

theorem index_out_of_range_counterexample:
  "urls (handleUrlChange (URL_new no_tables) initial 1 (js ''x'')) = [Str [], Str (js ''x'')] \<and>
   urls (handleUrlChange (URL_new no_tables) initial 1 (js ''x'')) \<noteq> urls initial \<and>
   removeUrlField initial 1 = Inr initial"
  by (simp add: handleUrlChange_def Let_def spread_def assign_def initial_def removeUrlField_def
      no_errors_def)

text \<open>
  C5, amended: for an index at or beyond the end of a non-empty list of strings, neither
  handler fails; \<^verbatim>\<open>removeUrlField\<close> leaves the list as it is and discards the error keyed by
  the index; \<^verbatim>\<open>handleUrlChange\<close>, when the index is an array index (below \<open>2\<^sup>3\<^sup>2 - 1\<close>),
  extends the list: the entries stay, holes follow up to the index, and the new text is at
  the index.
\<close>

theorem index_out_of_range:
  assumes "length xs \<le> index" and "xs \<noteq> []"
  shows "removeUrlField (st\<lparr>urls := map Str xs\<rparr>) index =
           Inr (st\<lparr>urls := map Str xs,
                   errors := (errors st)\<lparr>err_urls := (err_urls (errors st))(index := None)\<rparr>\<rparr>) \<and>
         (index < 2 ^ 32 - 1 \<longrightarrow>
            urls (handleUrlChange newURL (st\<lparr>urls := map Str xs\<rparr>) index v) =
              map Str xs @ replicate (index - length xs) Hole @ [Str v])"
  using assms removeUrlField_out_of_range handleUrlChange_out_of_range by blast

theorem index_out_of_range_witness:
  "length [js ''a''] \<le> (3::nat) \<and> [js ''a''] \<noteq> [] \<and> (3::nat) < 2 ^ 32 - 1 \<and>
   removeUrlField (initial\<lparr>urls := map Str [js ''a'']\<rparr>) 3 =
     Inr (initial\<lparr>urls := map Str [js ''a''],
            errors := (errors initial)\<lparr>err_urls := (err_urls (errors initial))(3 := None)\<rparr>\<rparr>) \<and>
   urls (handleUrlChange (URL_new no_tables) (initial\<lparr>urls := map Str [js ''a'']\<rparr>) 3 (js ''b'')) =
     [Str (js ''a''), Hole, Hole, Str (js ''b'')]"
proof -
  have h1: "length [js ''a''] \<le> (3::nat)" by simp
  have h2: "[js ''a''] \<noteq> []" by simp
  have h3: "(3::nat) < 2 ^ 32 - 1" by simp
  have "replicate (3 - length [js ''a'']) Hole = [Hole, Hole]"
    by (simp add: numeral_3_eq_3)
  with index_out_of_range [OF h1 h2, of initial "URL_new no_tables" "js ''b''"] h1 h2 h3
  show ?thesis by simp
qed

text \<open>
  C6. On every list of strings \<^verbatim>\<open>hasValidUrls\<close> returns true iff some entry is non-blank
  and parses as an absolute http or https URL; it returns false iff every entry is blank or
  every non-blank entry fails to parse so; and when it returns false the question field and
  the submit button are disabled.
\<close>

theorem hasValidUrls_iff:
  "hasValidUrls newURL (st\<lparr>urls := map Str xs\<rparr>) =
     Inr (\<exists>x\<in>set xs. \<not> blank x \<and> parses_http newURL x) \<and>
   (hasValidUrls newURL (st\<lparr>urls := map Str xs\<rparr>) = Inr False \<longleftrightarrow>
      (\<forall>x\<in>set xs. blank x) \<or> (\<forall>x\<in>set xs. \<not> blank x \<longrightarrow> \<not> parses_http newURL x)) \<and>
   (hasValidUrls newURL (st\<lparr>urls := map Str xs\<rparr>) = Inr False \<longrightarrow>
      question_disabled newURL (st\<lparr>urls := map Str xs\<rparr>) = Inr True \<and>
      submit_disabled newURL (st\<lparr>urls := map Str xs\<rparr>) = Inr True)"
  using disabled_without_valid_url [of newURL "st\<lparr>urls := map Str xs\<rparr>"]
  by (auto simp: hasValidUrls_Str)

theorem hasValidUrls_iff_witness:
  "hasValidUrls (URL_new no_tables)
     (initial\<lparr>urls := map Str [js [], js ''https://example.com'']\<rparr>) = Inr True \<and>
   hasValidUrls (URL_new no_tables)
     (initial\<lparr>urls := map Str [js [], js ''not-a-url'']\<rparr>) = Inr False \<and>
   question_disabled (URL_new no_tables)
     (initial\<lparr>urls := map Str [js [], js ''not-a-url'']\<rparr>) = Inr True \<and>
   submit_disabled (URL_new no_tables)
     (initial\<lparr>urls := map Str [js [], js ''not-a-url'']\<rparr>) = Inr True"
  using hasValidUrls_iff [where newURL = "URL_new no_tables" and st = initial
      and xs = "[js [], js ''https://example.com'']"]
    hasValidUrls_iff [where newURL = "URL_new no_tables" and st = initial
      and xs = "[js [], js ''not-a-url'']"]
    example_blank example_https example_not_a_url
  by simp

text \<open>
  C7. Whenever \<^verbatim>\<open>validateForm\<close> reports the form invalid, \<^verbatim>\<open>handleSubmit\<close> returns with the
  state \<^verbatim>\<open>validateForm\<close> left: the errors are the computed ones and nothing else has
  changed; in particular \<^verbatim>\<open>loading\<close> and \<^verbatim>\<open>answer\<close> are as before and no call has been
  started.
\<close>

theorem handleSubmit_rejects_invalid_form:
  assumes "validateForm newURL st = Inr (False, st')"
  shows "handleSubmit newURL st = Inr st' \<and>
         st' = st\<lparr>errors := errors st'\<rparr> \<and>
         loading st' = loading st \<and> answer st' = answer st \<and> pending st' = pending st"
proof -
  from assms have frame: "st' = st\<lparr>errors := errors st'\<rparr>"
    by (rule validateForm_frame)
  have "loading st' = loading (st\<lparr>errors := errors st'\<rparr>)"
       "answer st' = answer (st\<lparr>errors := errors st'\<rparr>)"
       "pending st' = pending (st\<lparr>errors := errors st'\<rparr>)"
    using frame by simp_all
  then have "loading st' = loading st" "answer st' = answer st" "pending st' = pending st"
    by simp_all
  with frame handleSubmit_invalid [OF assms] show ?thesis by simp
qed

theorem handleSubmit_rejects_invalid_form_witness:
  "validateForm (URL_new no_tables)
     (initial\<lparr>urls := [Str (js ''not-a-url'')], question := js ''What?''\<rparr>) =
   Inr (False, initial\<lparr>urls := [Str (js ''not-a-url'')], question := js ''What?'',
          errors := \<lparr>err_urls = [0 \<mapsto> invalid_url_message], err_question = [],
                      err_general = []\<rparr>\<rparr>) \<and>
   handleSubmit (URL_new no_tables)
     (initial\<lparr>urls := [Str (js ''not-a-url'')], question := js ''What?''\<rparr>) =
   Inr (initial\<lparr>urls := [Str (js ''not-a-url'')], question := js ''What?'',
          errors := \<lparr>err_urls = [0 \<mapsto> invalid_url_message], err_question = [],
                      err_general = []\<rparr>\<rparr>)"
  using handleSubmit_rejects_invalid_form [OF scenario_A] scenario_A
  by simp

text \<open>
  C8, as stated: \<^verbatim>\<open>handleUrlChange\<close> clears the error of the edited index whatever the new
  text is. It deletes the error and then records the message again when the new text is
  non-blank and not a valid URL: editing entry 0, which has an error, to \<^verbatim>\<open>not-a-url\<close>
  leaves entry 0 with an error.
\<close>

theorem handleUrlChange_error_counterexample:
  "err_urls (errors (handleUrlChange (URL_new no_tables)
      (initial\<lparr>urls := [Str (js ''x'')],
               errors := no_errors\<lparr>err_urls := [0 \<mapsto> invalid_url_message]\<rparr>\<rparr>)
      0 (js ''not-a-url''))) 0 = Some invalid_url_message"
  using example_blank example_not_a_url by (simp add: handleUrlChange_errors)

text \<open>
  C8, amended: after \<^verbatim>\<open>handleUrlChange(index, text)\<close> the edited index has the invalid-URL
  message iff the text is non-blank and does not parse as an http or https URL, and no error
  otherwise; the errors of the other indices, the question error and the general error are
  unchanged.
\<close>

theorem handleUrlChange_replaces_error:
  "err_urls (errors (handleUrlChange newURL st index v)) index =
     (if \<not> blank v \<and> \<not> parses_http newURL v then Some invalid_url_message else None) \<and>
   (\<forall>k. k \<noteq> index \<longrightarrow>
      err_urls (errors (handleUrlChange newURL st index v)) k = err_urls (errors st) k) \<and>
   err_question (errors (handleUrlChange newURL st index v)) = err_question (errors st) \<and>
   err_general (errors (handleUrlChange newURL st index v)) = err_general (errors st)"
  by (simp add: handleUrlChange_errors)

theorem handleUrlChange_replaces_error_witness:
  "parses_http (URL_new no_tables) (js ''https://example.com'') \<and>
   err_urls (errors (handleUrlChange (URL_new no_tables)
      (initial\<lparr>errors := no_errors\<lparr>err_urls := [0 \<mapsto> invalid_url_message, 1 \<mapsto> invalid_url_message]\<rparr>\<rparr>)
      0 (js ''https://example.com''))) 0 = None \<and>
   err_urls (errors (handleUrlChange (URL_new no_tables)
      (initial\<lparr>errors := no_errors\<lparr>err_urls := [0 \<mapsto> invalid_url_message, 1 \<mapsto> invalid_url_message]\<rparr>\<rparr>)
      0 (js ''https://example.com''))) 1 = Some invalid_url_message"
  using handleUrlChange_replaces_error [where newURL = "URL_new no_tables" and index = 0
      and v = "js ''https://example.com''"
      and st = "initial\<lparr>errors := no_errors\<lparr>err_urls := [0 \<mapsto> invalid_url_message, 1 \<mapsto> invalid_url_message]\<rparr>\<rparr>"]
    example_https
  by simp

text \<open>
  C9, as stated: \<^verbatim>\<open>isValidUrl\<close> accepts a string iff it parses as an absolute URL whose scheme
  is exactly http or https, compared case-sensitively, so that \<^verbatim>\<open>HTTPS://example.com\<close> is
  rejected. The comparison of line 45 is on the \<^verbatim>\<open>protocol\<close> of the parsed URL, and the
  parser lower-cases the scheme as it reads it: \<^verbatim>\<open>HTTPS://example.com\<close> is accepted.
\<close>

theorem isValidUrl_upper_case_counterexample:
  "isValidUrl (URL_new no_tables) (js ''HTTPS://example.com'')"
  by code_simp

text \<open>
  C9, amended: \<^verbatim>\<open>isValidUrl\<close> accepts a string iff the constructor returns a URL whose scheme
  is exactly http or https. On a text that starts with a scheme followed by a colon, the
  outcome depends on the scheme only through its ASCII lower-casing: it is accepted iff the
  lower-cased scheme is http or https and the states after the scheme succeed.
\<close>

theorem isValidUrl_scheme:
  "(isValidUrl newURL s \<longleftrightarrow>
      (\<exists>u. newURL s = Some u \<and> (scheme u = js ''http'' \<or> scheme u = js ''https''))) \<and>
   (a \<noteq> [] \<and> ascii_alpha (hd a) \<and> list_all scheme_code_point a \<longrightarrow>
      isValidUrl (basic_URL_parser after) (a @ js '':'' @ r) =
        ((map ascii_lowercase a = js ''http'' \<or> map ascii_lowercase a = js ''https'') \<and>
         after (map ascii_lowercase a) (remove_tab_newline (strip_trailing r))))"
  using isValidUrl_iff_scheme [of newURL s] isValidUrl_scheme_text [of a after r]
  by blast

theorem isValidUrl_scheme_witness:
  "js ''HTTP'' \<noteq> [] \<and> ascii_alpha (hd (js ''HTTP'')) \<and>
   list_all scheme_code_point (js ''HTTP'') \<and>
   map ascii_lowercase (js ''HTTP'') = js ''http'' \<and>
   isValidUrl (basic_URL_parser (after_scheme no_tables))
     (js ''HTTP'' @ js '':'' @ js ''//example.com/a '')"
proof -
  from isValidUrl_scheme [where a = "js ''HTTP''" and after = "after_scheme no_tables"
      and r = "js ''//example.com/a ''"] example_scheme(1-3)
  have "isValidUrl (basic_URL_parser (after_scheme no_tables))
          (js ''HTTP'' @ js '':'' @ js ''//example.com/a '') =
        ((map ascii_lowercase (js ''HTTP'') = js ''http'' \<or>
          map ascii_lowercase (js ''HTTP'') = js ''https'') \<and>
         after_scheme no_tables (map ascii_lowercase (js ''HTTP''))
           (remove_tab_newline (strip_trailing (js ''//example.com/a ''))))"
    by blast
  with example_scheme show ?thesis by simp
qed

text \<open>
  C10. \<^verbatim>\<open>removeUrlField\<close> deletes the error keyed by the removed index and no other, and
  does not re-key the rest: an entry that was at a position \<open>k\<close> above the removed index is
  at position \<open>k - 1\<close> afterwards, while the error recorded under \<open>k\<close> is still under \<open>k\<close>.
\<close>

theorem removeUrlField_keeps_error_keys:
  assumes "index < length xs"
  shows "\<exists>st'. removeUrlField (st\<lparr>urls := map Str xs\<rparr>) index = Inr st' \<and>
           err_urls (errors st') = (err_urls (errors st))(index := None) \<and>
           (\<forall>k. index < k \<and> k < length xs \<longrightarrow>
              urls st' ! (k - 1) = Str (xs ! k) \<and>
              err_urls (errors st') k = err_urls (errors st) k)"
proof -
  define ys where "ys = take index xs @ drop (Suc index) xs"
  let ?st' = "st\<lparr>urls := (if length xs = 1 then [Str []] else map Str ys),
                   errors := (errors st)\<lparr>err_urls := (err_urls (errors st))(index := None)\<rparr>\<rparr>"
  have r: "removeUrlField (st\<lparr>urls := map Str xs\<rparr>) index = Inr ?st'"
    unfolding ys_def using assms by (rule removeUrlField_Str)
  have "urls ?st' ! (k - 1) = Str (xs ! k)" if "index < k" "k < length xs" for k
  proof -
    from that have "length xs \<noteq> 1" by simp
    moreover from that have "ys ! (k - 1) = xs ! k"
      unfolding ys_def by (rule nth_remove_nth)
    moreover from that have "k - 1 < length ys"
      by (simp add: ys_def)
    ultimately show ?thesis by simp
  qed
  then show ?thesis
    using r by simp
qed

theorem removeUrlField_keeps_error_keys_witness:
  "(0::nat) < length [js ''a'', js ''not-a-url''] \<and>
   (\<exists>st'. removeUrlField
      (initial\<lparr>errors := no_errors\<lparr>err_urls := [1 \<mapsto> invalid_url_message]\<rparr>,
               urls := map Str [js ''a'', js ''not-a-url'']\<rparr>) 0 = Inr st' \<and>
      urls st' ! 0 = Str (js ''not-a-url'') \<and>
      err_urls (errors st') 0 = None \<and>
      err_urls (errors st') 1 = Some invalid_url_message)"
proof -
  have h: "(0::nat) < length [js ''a'', js ''not-a-url'']" by simp
  from removeUrlField_keeps_error_keys [OF h,
      of "initial\<lparr>errors := no_errors\<lparr>err_urls := [1 \<mapsto> invalid_url_message]\<rparr>\<rparr>"]
  obtain st' where
    r: "removeUrlField
         (initial\<lparr>errors := no_errors\<lparr>err_urls := [1 \<mapsto> invalid_url_message]\<rparr>,
                  urls := map Str [js ''a'', js ''not-a-url'']\<rparr>) 0 = Inr st'"
    and e: "err_urls (errors st') = [1 \<mapsto> invalid_url_message](0 := None)"
    and k: "\<forall>k. 0 < k \<and> k < length [js ''a'', js ''not-a-url''] \<longrightarrow>
              urls st' ! (k - 1) = Str ([js ''a'', js ''not-a-url''] ! k) \<and>
              err_urls (errors st') k =
                err_urls (errors (initial\<lparr>errors := no_errors\<lparr>err_urls := [1 \<mapsto> invalid_url_message]\<rparr>\<rparr>)) k"
    by auto
  from k [rule_format, of 1] have "urls st' ! 0 = Str (js ''not-a-url'')"
    and "err_urls (errors st') 1 = Some invalid_url_message"
    by simp_all
  moreover from e have "err_urls (errors st') 0 = None" by simp
  ultimately show ?thesis using r h by blast
qed

end
